theory Spec2Isabelle
  imports Complex_Main
begin

section \<open>Data model (expenses/models.py)\<close>

text \<open>
  Users are identified by their primary key. Timestamps are the values returned by
  \<^verbatim>\<open>timezone.now()\<close>; every call of it in the source is a parameter of the
  embedded operation.
\<close>

type_synonym user_id = nat
type_synonym timestamp = nat

text \<open>\<^verbatim>\<open>Expense.Status\<close>.\<close>

datatype expense_status = DRAFT | PENDING | APPROVED | REJECTED

text \<open>\<^verbatim>\<open>ApprovalStep.StepStatus\<close>.\<close>

datatype step_status = STEP_PENDING | STEP_APPROVED | STEP_REJECTED | STEP_SKIPPED

text \<open>\<^verbatim>\<open>ApprovalPolicy.Mode\<close>.\<close>

datatype policy_mode = PERCENTAGE | SPECIFIC | PERCENTAGE_OR_SPECIFIC

text \<open>\<^verbatim>\<open>ApproverRole.MANAGER\<close>; role names are stored as text.\<close>

definition MANAGER :: string where
  "MANAGER = ''MANAGER''"

text \<open>\<^verbatim>\<open>User\<close>: the fields the workflow reads.\<close>

record user =
  pk :: user_id
  manager :: "user_id option"

text \<open>\<^verbatim>\<open>ApproverStage\<close>; the source field \<^verbatim>\<open>sequence\<close> is \<open>stage_sequence\<close> here.\<close>

record approver_stage =
  stage_sequence :: nat
  role_name :: "string option"
  specific_user :: "user_id option"

text \<open>\<^verbatim>\<open>ApprovalPolicy\<close>; \<^verbatim>\<open>percentage_required\<close> is a PositiveIntegerField.\<close>

record approval_policy =
  percentage_required :: nat
  specific_approver :: "user_id option"
  mode :: policy_mode

text \<open>
  \<^verbatim>\<open>Company\<close> with its related rows: the stages in primary-key order, the role
  assignments (role name, user), unique per role name, and the one-to-one policy, which
  may not exist.
\<close>

record company =
  is_manager_first_approver :: bool
  approver_stages :: "approver_stage list"
  role_assignments :: "(string \<times> user_id) list"
  approval_policy :: "approval_policy option"

text \<open>\<^verbatim>\<open>ApprovalStep\<close>; the source field \<^verbatim>\<open>status\<close> is \<open>step_status\<close> here.\<close>

record approval_step =
  sequence :: nat
  approver :: user_id
  step_status :: step_status
  comment :: string
  acted_at :: "timestamp option"

text \<open>
  \<^verbatim>\<open>Expense\<close> with its related \<^verbatim>\<open>steps\<close> rows in primary-key order: a step is
  identified by its position in the list.
\<close>

record expense =
  submitter :: user
  company :: company
  status :: expense_status
  steps :: "approval_step list"

section \<open>Stage resolution and step chain (expenses/services.py)\<close>

text \<open>
  \<^verbatim>\<open>resolve_stage_assignee\<close>. A role name is truthy when it is present and not the
  empty text; \<^verbatim>\<open>RoleAssignment.DoesNotExist\<close> is the result \<open>None\<close>.
\<close>

definition resolve_stage_assignee :: "company \<Rightarrow> approver_stage \<Rightarrow> user \<Rightarrow> user_id option" where
  "resolve_stage_assignee c stage sub =
     (case specific_user stage of
        Some u \<Rightarrow> Some u
      | None \<Rightarrow>
         (case role_name stage of
            None \<Rightarrow> None
          | Some r \<Rightarrow>
              if r = [] then None
              else if r = MANAGER then manager sub
              else map_of (role_assignments c) r))"

text \<open>\<^verbatim>\<open>ApprovalStep.objects.create(expense, sequence, approver)\<close>: the field defaults.\<close>

definition create_step :: "nat \<Rightarrow> user_id \<Rightarrow> approval_step" where
  "create_step seq u =
     \<lparr>sequence = seq, approver = u, step_status = STEP_PENDING, comment = [], acted_at = None\<rparr>"

text \<open>
  The loop over the configured stages of \<^verbatim>\<open>build_approval_steps_for_expense\<close>: the
  state is the counter \<^verbatim>\<open>seq\<close> and the step rows.
\<close>

fun stage_loop ::
  "company \<Rightarrow> user \<Rightarrow> approver_stage list \<Rightarrow> nat \<times> approval_step list \<Rightarrow> nat \<times> approval_step list"
where
  "stage_loop c sub [] acc = acc"
| "stage_loop c sub (stage # rest) (seq, ss) =
     (case resolve_stage_assignee c stage sub of
        Some a \<Rightarrow> stage_loop c sub rest (seq + 1, ss @ [create_step seq a])
      | None \<Rightarrow> stage_loop c sub rest (seq, ss))"

text \<open>The manager-first stage of \<^verbatim>\<open>build_approval_steps_for_expense\<close>.\<close>

definition manager_first :: "company \<Rightarrow> user \<Rightarrow> approval_step list \<Rightarrow> nat \<times> approval_step list" where
  "manager_first c sub ss =
     (case manager sub of
        Some m \<Rightarrow> if is_manager_first_approver c then (2, ss @ [create_step 1 m]) else (1, ss)
      | None \<Rightarrow> (1, ss))"

text \<open>
  \<^verbatim>\<open>build_approval_steps_for_expense\<close>; \<^verbatim>\<open>order_by("sequence")\<close> is a stable sort
  of the stage rows.
\<close>

definition build_approval_steps_for_expense :: "expense \<Rightarrow> expense" where
  "build_approval_steps_for_expense e =
     (let ss = snd (stage_loop (company e) (submitter e)
                     (sort_key stage_sequence (approver_stages (company e)))
                     (manager_first (company e) (submitter e) (steps e)))
      in if length ss = 0 then e\<lparr>status := APPROVED, steps := ss\<rparr>
         else e\<lparr>status := PENDING, steps := ss\<rparr>)"

section \<open>Policy evaluation\<close>

text \<open>The closure \<^verbatim>\<open>finalize_approved\<close> of \<^verbatim>\<open>evaluate_policy_and_maybe_finalize\<close>.\<close>

definition skip_if_pending :: "timestamp \<Rightarrow> approval_step \<Rightarrow> approval_step" where
  "skip_if_pending now s =
     (if step_status s = STEP_PENDING
      then s\<lparr>step_status := STEP_SKIPPED, acted_at := Some now\<rparr> else s)"

definition finalize_approved :: "timestamp \<Rightarrow> expense \<Rightarrow> expense" where
  "finalize_approved now e = e\<lparr>status := APPROVED, steps := map (skip_if_pending now) (steps e)\<rparr>"

text \<open>
  \<^verbatim>\<open>any(s.approver_id == policy.specific_approver_id and s.status == APPROVED for s in steps)\<close>;
  the first argument is \<^verbatim>\<open>policy.specific_approver_id\<close>.
\<close>

definition approved_by :: "user_id option \<Rightarrow> approval_step list \<Rightarrow> bool" where
  "approved_by ua ss = list_ex (\<lambda>s. Some (approver s) = ua \<and> step_status s = STEP_APPROVED) ss"

text \<open>
  \<^verbatim>\<open>len(approved) * 100 / total\<close>. Python's \<^verbatim>\<open>/\<close> on two ints is true division; the
  quotient is taken here as the exact real number. (Its rounding to a double compares
  differently with an integer threshold only when \<^verbatim>\<open>total * percentage_required\<close>
  reaches \<open>2 ^ 53\<close>.)
\<close>

definition approved_percentage :: "approval_step list \<Rightarrow> real" where
  "approved_percentage ss =
     (let approved = filter (\<lambda>s. step_status s = STEP_APPROVED) ss; total = length ss
      in real (length approved * 100) / real total)"

text \<open>
  The local variables \<^verbatim>\<open>specific_ok\<close> and \<^verbatim>\<open>percentage_ok\<close> of the
  \<^verbatim>\<open>PERCENTAGE_OR_SPECIFIC\<close> branch.
\<close>

definition specific_ok :: "approval_policy \<Rightarrow> approval_step list \<Rightarrow> bool" where
  "specific_ok policy ss =
     (specific_approver policy \<noteq> None \<and> approved_by (specific_approver policy) ss)"

definition percentage_ok :: "approval_policy \<Rightarrow> approval_step list \<Rightarrow> bool" where
  "percentage_ok policy ss =
     (length ss > 0 \<and> percentage_required policy > 0
      \<and> approved_percentage ss \<ge> real (percentage_required policy))"

text \<open>
  \<^verbatim>\<open>evaluate_policy_and_maybe_finalize\<close>; \<^verbatim>\<open>ApprovalPolicy.DoesNotExist\<close> is the
  policy \<open>None\<close>. Each \<^verbatim>\<open>if\<close> of the source that does not finalize falls through to
  the next one.
\<close>

definition evaluate_policy_and_maybe_finalize :: "timestamp \<Rightarrow> expense \<Rightarrow> expense" where
  "evaluate_policy_and_maybe_finalize now e =
     (case approval_policy (company e) of
        None \<Rightarrow> e
      | Some policy \<Rightarrow>
          let ss = steps e; total = length ss in
          if ss = [] then e
          else if (mode policy = SPECIFIC \<and> specific_approver policy \<noteq> None)
                  \<and> approved_by (specific_approver policy) ss
            then finalize_approved now e
          else if (mode policy = PERCENTAGE \<and> percentage_required policy > 0)
                  \<and> (total > 0 \<and> approved_percentage ss \<ge> real (percentage_required policy))
            then finalize_approved now e
          else if mode policy = PERCENTAGE_OR_SPECIFIC
                  \<and> (specific_ok policy ss \<or> percentage_ok policy ss)
            then finalize_approved now e
          else e)"

section \<open>Workflow operations\<close>

text \<open>
  \<^verbatim>\<open>expense.steps.filter(approver=user, status=PENDING).order_by("sequence").first()\<close>:
  the position of the matching row of least sequence, if any (the sort is stable: among
  rows of equal sequence, which the builder never creates, the earliest row comes first).
\<close>

definition first_pending_step :: "user_id \<Rightarrow> approval_step list \<Rightarrow> nat option" where
  "first_pending_step u ss =
     (case sort_key (\<lambda>i. sequence (ss ! i))
             (filter (\<lambda>i. approver (ss ! i) = u \<and> step_status (ss ! i) = STEP_PENDING)
                [0 ..< length ss]) of
        [] \<Rightarrow> None
      | i # _ \<Rightarrow> Some i)"

text \<open>
  \<^verbatim>\<open>approve_step\<close>. \<open>t_step\<close> is the time stamped on the approved step, \<open>t_eval\<close> the
  one read by the policy evaluator.
\<close>

definition approve_step ::
  "expense \<Rightarrow> user_id \<Rightarrow> string \<Rightarrow> timestamp \<Rightarrow> timestamp \<Rightarrow> bool \<times> expense" where
  "approve_step e u c t_step t_eval =
     (if status e \<noteq> PENDING then (False, e)
      else case first_pending_step u (steps e) of
        None \<Rightarrow> (False, e)
      | Some i \<Rightarrow>
          let e1 = e\<lparr>steps := (steps e)
                     [i := (steps e ! i)\<lparr>step_status := STEP_APPROVED, comment := c,
                                          acted_at := Some t_step\<rparr>]\<rparr>;
              e2 = evaluate_policy_and_maybe_finalize t_eval e1
          in if status e2 = APPROVED then (True, e2)
             else if \<not> list_ex (\<lambda>s. step_status s = STEP_PENDING) (steps e2)
               then (True, e2\<lparr>status := APPROVED\<rparr>)
             else (True, e2))"

text \<open>
  The loop closing the remaining pending steps, shared in shape by \<^verbatim>\<open>reject_expense\<close>
  and \<^verbatim>\<open>admin_override_expense\<close>: \<open>st\<close> is the expense status the loop tests.
\<close>

definition close_if_pending :: "expense_status \<Rightarrow> string \<Rightarrow> timestamp \<Rightarrow> approval_step \<Rightarrow> approval_step" where
  "close_if_pending st c now s =
     (if step_status s = STEP_PENDING
      then s\<lparr>step_status := (if st = APPROVED then STEP_SKIPPED else STEP_REJECTED),
             comment := comment s @ (if c \<noteq> [] then CHR 10 # ''[Admin override] '' @ c else []),
             acted_at := Some now\<rparr>
      else s)"

text \<open>\<^verbatim>\<open>reject_expense\<close>.\<close>

definition reject_expense ::
  "expense \<Rightarrow> user_id \<Rightarrow> string \<Rightarrow> timestamp \<Rightarrow> timestamp \<Rightarrow> bool \<times> expense" where
  "reject_expense e u c t_step now =
     (case first_pending_step u (steps e) of
        None \<Rightarrow> (False, e)
      | Some i \<Rightarrow>
          let e1 = e\<lparr>steps := (steps e)
                     [i := (steps e ! i)\<lparr>step_status := STEP_REJECTED, comment := c,
                                          acted_at := Some t_step\<rparr>]\<rparr>;
              e2 = e1\<lparr>status := REJECTED\<rparr>
          in (True, e2\<lparr>steps := map (close_if_pending (status e2) c now) (steps e2)\<rparr>))"

text \<open>\<^verbatim>\<open>admin_override_expense\<close>.\<close>

definition admin_override_expense ::
  "expense \<Rightarrow> expense_status \<Rightarrow> string \<Rightarrow> timestamp \<Rightarrow> bool \<times> expense" where
  "admin_override_expense e target c now =
     (if target \<noteq> APPROVED \<and> target \<noteq> REJECTED then (False, e)
      else (True, e\<lparr>steps := map (close_if_pending target c now) (steps e), status := target\<rparr>))"

section \<open>Example configurations\<close>

text \<open>
  A company with manager-first approval and three configured stages, listed out of
  order: a specific user 20 at sequence 1, the FINANCE role (assigned to user 30) at
  sequence 2 and the CFO role (assigned to nobody) at sequence 3. The submitter's
  manager is user 10.
\<close>

definition example_company :: "approval_policy option \<Rightarrow> company" where
  "example_company p =
     \<lparr>is_manager_first_approver = True,
      approver_stages =
        [\<lparr>stage_sequence = 2, role_name = Some ''FINANCE'', specific_user = None\<rparr>,
         \<lparr>stage_sequence = 1, role_name = None, specific_user = Some 20\<rparr>,
         \<lparr>stage_sequence = 3, role_name = Some ''CFO'', specific_user = None\<rparr>],
      role_assignments = [(''FINANCE'', 30)],
      approval_policy = p\<rparr>"

definition example_expense :: "approval_policy option \<Rightarrow> expense_status \<Rightarrow> approval_step list \<Rightarrow> expense" where
  "example_expense p st ss =
     \<lparr>submitter = \<lparr>pk = 1, manager = Some 10\<rparr>, company = example_company p,
      status = st, steps = ss\<rparr>"

text \<open>A step of the given sequence, approver and status, as left by an earlier action.\<close>

definition example_step :: "nat \<Rightarrow> user_id \<Rightarrow> step_status \<Rightarrow> approval_step" where
  "example_step seq u st =
     \<lparr>sequence = seq, approver = u, step_status = st, comment = [],
      acted_at = (if st = STEP_PENDING then None else Some 1)\<rparr>"

text \<open>A company without stages or policy, and a submitter without manager.\<close>

definition bare_expense :: expense where
  "bare_expense =
     \<lparr>submitter = \<lparr>pk = 1, manager = None\<rparr>,
      company = \<lparr>is_manager_first_approver = True, approver_stages = [],
                 role_assignments = [], approval_policy = None\<rparr>,
      status = DRAFT, steps = []\<rparr>"

section \<open>The invariant of terminal expenses\<close>

text \<open>
  An expense that is APPROVED or REJECTED has no PENDING step. The builder establishes
  this and every operation keeps it (lemmas \<open>*_terminal_closed\<close> below).
\<close>

definition terminal_closed :: "expense \<Rightarrow> bool" where
  "terminal_closed e \<longleftrightarrow>
     (status e = APPROVED \<or> status e = REJECTED
        \<longrightarrow> (\<forall>s\<in>set (steps e). step_status s \<noteq> STEP_PENDING))"

lemmas ex_defs = example_expense_def example_company_def example_step_def

lemmas run_defs = approve_step_def reject_expense_def admin_override_expense_def
  first_pending_step_def evaluate_policy_and_maybe_finalize_def finalize_approved_def
  skip_if_pending_def close_if_pending_def approved_by_def approved_percentage_def
  specific_ok_def percentage_ok_def build_approval_steps_for_expense_def manager_first_def
  create_step_def resolve_stage_assignee_def MANAGER_def

section \<open>The first pending step of a user\<close>

lemma sort_key_head:
  assumes "sort_key f xs = i # rest"
  shows "i \<in> set xs \<and> (\<forall>j\<in>set xs. f i \<le> f j)"
proof -
  have s: "set xs = set (i # rest)"
    using assms set_sort [of f xs] by simp
  have "sorted (map f (i # rest))"
    using assms sorted_sort_key [of f xs] by simp
  then have "\<forall>j\<in>set rest. f i \<le> f j"
    by simp
  with s show ?thesis by auto
qed

lemma sort_key_Nil_iff: "sort_key f xs = [] \<longleftrightarrow> xs = []"
  using length_sort [of f xs] by (metis length_0_conv)

lemma first_pending_step_None:
  "first_pending_step u ss = None \<longleftrightarrow>
     (\<forall>s\<in>set ss. \<not> (approver s = u \<and> step_status s = STEP_PENDING))"
proof -
  let ?P = "\<lambda>i. approver (ss ! i) = u \<and> step_status (ss ! i) = STEP_PENDING"
  have "first_pending_step u ss = None \<longleftrightarrow> filter ?P [0 ..< length ss] = []"
  proof (cases "sort_key (\<lambda>i. sequence (ss ! i)) (filter ?P [0 ..< length ss])")
    case Nil
    then show ?thesis
      using sort_key_Nil_iff [of "\<lambda>i. sequence (ss ! i)" "filter ?P [0 ..< length ss]"]
      by (simp add: first_pending_step_def)
  next
    case (Cons a list)
    then show ?thesis
      using sort_key_Nil_iff [of "\<lambda>i. sequence (ss ! i)" "filter ?P [0 ..< length ss]"]
      by (simp add: first_pending_step_def)
  qed
  also have "\<dots> \<longleftrightarrow> (\<forall>i<length ss. \<not> ?P i)"
    by (auto simp: filter_empty_conv)
  also have "\<dots> \<longleftrightarrow> (\<forall>s\<in>set ss. \<not> (approver s = u \<and> step_status s = STEP_PENDING))"
    by (metis in_set_conv_nth)
  finally show ?thesis .
qed

lemma first_pending_step_Some:
  assumes "first_pending_step u ss = Some i"
  shows "i < length ss \<and> approver (ss ! i) = u \<and> step_status (ss ! i) = STEP_PENDING \<and>
         (\<forall>j<length ss. approver (ss ! j) = u \<and> step_status (ss ! j) = STEP_PENDING
            \<longrightarrow> sequence (ss ! i) \<le> sequence (ss ! j))"
proof -
  let ?P = "\<lambda>i. approver (ss ! i) = u \<and> step_status (ss ! i) = STEP_PENDING"
  obtain rest where "sort_key (\<lambda>i. sequence (ss ! i)) (filter ?P [0 ..< length ss]) = i # rest"
    using assms by (auto simp: first_pending_step_def split: list.splits)
  from sort_key_head [OF this] show ?thesis by auto
qed

section \<open>Claims about the step chain builder\<close>

lemma stage_loop_sequence:
  "map sequence (snd (stage_loop c sub stages (seq, ss)))
     = map sequence ss
       @ [seq ..< seq + length (filter (\<lambda>st. resolve_stage_assignee c st sub \<noteq> None) stages)]"
proof (induction stages arbitrary: seq ss)
  case Nil
  then show ?case by simp
next
  case (Cons stage rest)
  show ?case
  proof (cases "resolve_stage_assignee c stage sub")
    case None
    then show ?thesis using Cons.IH [of seq ss] by simp
  next
    case (Some a)
    let ?k = "length (filter (\<lambda>st. resolve_stage_assignee c st sub \<noteq> None) rest)"
    have "[seq ..< seq + Suc ?k] = seq # [Suc seq ..< Suc seq + ?k]"
      by (subst upt_rec) simp
    then show ?thesis
      using Some Cons.IH [of "seq + 1" "ss @ [create_step seq a]"]
      by (simp add: create_step_def del: upt_Suc)
  qed
qed

lemma resolved_sorted_count:
  "length (filter P (sort_key f xs)) = length (filter P xs)"
  by (simp add: filter_sort)

lemma manager_first_sequence:
  "map sequence (snd (manager_first c sub []))
     = [1 ..< fst (manager_first c sub [])]
   \<and> fst (manager_first c sub [])
     = 1 + (if is_manager_first_approver c \<and> manager sub \<noteq> None then 1 else 0)"
  by (simp add: manager_first_def create_step_def numeral_2_eq_2 split: option.splits)

lemma build_sequence:
  assumes "steps e = []"
  shows "map sequence (steps (build_approval_steps_for_expense e))
     = [1 ..< Suc ((if is_manager_first_approver (company e) \<and> manager (submitter e) \<noteq> None
                    then 1 else 0)
                   + length (filter (\<lambda>st. resolve_stage_assignee (company e) st (submitter e) \<noteq> None)
                               (approver_stages (company e))))]"
proof -
  let ?c = "company e" and ?sub = "submitter e"
  let ?m = "manager_first ?c ?sub []"
  let ?k = "length (filter (\<lambda>st. resolve_stage_assignee ?c st ?sub \<noteq> None) (approver_stages ?c))"
  let ?ss = "snd (stage_loop ?c ?sub (sort_key stage_sequence (approver_stages ?c)) ?m)"
  have "map sequence ?ss = map sequence (snd ?m) @ [fst ?m ..< fst ?m + ?k]"
    using stage_loop_sequence [of ?c ?sub "sort_key stage_sequence (approver_stages ?c)" "fst ?m" "snd ?m"]
    by (simp add: resolved_sorted_count)
  also have "\<dots> = [1 ..< fst ?m] @ [fst ?m ..< fst ?m + ?k]"
    using manager_first_sequence [of ?c ?sub] by simp
  also have "\<dots> = [1 ..< fst ?m + ?k]"
    using manager_first_sequence [of ?c ?sub] upt_add_eq_append [of 1 "fst ?m" ?k]
    by (simp del: upt_Suc)
  finally have "map sequence ?ss = [1 ..< fst ?m + ?k]" .
  moreover have "steps (build_approval_steps_for_expense e) = ?ss"
    using assms by (simp add: build_approval_steps_for_expense_def Let_def)
  ultimately show ?thesis
    using manager_first_sequence [of ?c ?sub] by (simp del: upt_Suc)
qed

text \<open>
  Claim C6. Submitting a fresh expense (one without steps) sets its status to APPROVED
  exactly when the builder created no step, and to PENDING otherwise; no step is created
  exactly when the manager-first step does not apply and no configured stage resolves to
  an assignee. In particular a company without stages and a submitter without manager
  give status APPROVED and no steps.
\<close>

theorem build_status:
  assumes "steps e = []"
  shows "status (build_approval_steps_for_expense e)
           = (if steps (build_approval_steps_for_expense e) = [] then APPROVED else PENDING)
       \<and> (steps (build_approval_steps_for_expense e) = [] \<longleftrightarrow>
            \<not> (is_manager_first_approver (company e) \<and> manager (submitter e) \<noteq> None)
            \<and> (\<forall>st\<in>set (approver_stages (company e)).
                  resolve_stage_assignee (company e) st (submitter e) = None))
       \<and> (approver_stages (company e) = [] \<and> manager (submitter e) = None \<longrightarrow>
            build_approval_steps_for_expense e = e\<lparr>status := APPROVED\<rparr>)"
proof -
  let ?b = "build_approval_steps_for_expense e"
  let ?k = "length (filter (\<lambda>st. resolve_stage_assignee (company e) st (submitter e) \<noteq> None)
                         (approver_stages (company e)))"
  have st: "status ?b = (if steps ?b = [] then APPROVED else PENDING)"
    by (simp add: build_approval_steps_for_expense_def Let_def)
  have "length (map sequence (steps ?b))
          = (if is_manager_first_approver (company e) \<and> manager (submitter e) \<noteq> None then 1 else 0) + ?k"
    using arg_cong [OF build_sequence [OF assms], of length] by (simp del: upt_Suc)
  then have "length (steps ?b) = 0 \<longleftrightarrow>
      \<not> (is_manager_first_approver (company e) \<and> manager (submitter e) \<noteq> None) \<and> ?k = 0"
    by (simp split: if_splits)
  then have "steps ?b = [] \<longleftrightarrow>
      \<not> (is_manager_first_approver (company e) \<and> manager (submitter e) \<noteq> None) \<and> ?k = 0"
    by (simp only: length_0_conv)
  then have zero: "steps ?b = [] \<longleftrightarrow>
      \<not> (is_manager_first_approver (company e) \<and> manager (submitter e) \<noteq> None)
      \<and> (\<forall>st\<in>set (approver_stages (company e)).
            resolve_stage_assignee (company e) st (submitter e) = None)"
    by (simp add: filter_empty_conv)
  have bare: "approver_stages (company e) = [] \<and> manager (submitter e) = None \<longrightarrow>
      ?b = e\<lparr>status := APPROVED\<rparr>"
    using assms by (simp add: build_approval_steps_for_expense_def manager_first_def)
  from st zero bare show ?thesis by blast
qed

theorem build_status_witness:
  "build_approval_steps_for_expense bare_expense = bare_expense\<lparr>status := APPROVED\<rparr>
   \<and> steps (bare_expense\<lparr>status := APPROVED\<rparr>) = []
   \<and> status (build_approval_steps_for_expense (example_expense None DRAFT [])) = PENDING
   \<and> length (steps (build_approval_steps_for_expense (example_expense None DRAFT []))) = 3"
proof -
  have s: "steps (example_expense None DRAFT []) = []"
    by (simp add: ex_defs)
  have b: "steps bare_expense = []"
    by (simp add: bare_expense_def)
  have l: "length (steps (build_approval_steps_for_expense (example_expense None DRAFT []))) = 3"
    by (simp add: ex_defs build_approval_steps_for_expense_def manager_first_def create_step_def
          resolve_stage_assignee_def MANAGER_def)
  then have n: "steps (build_approval_steps_for_expense (example_expense None DRAFT [])) \<noteq> []"
    by auto
  show ?thesis
    using build_status [OF s] build_status [OF b] l n b by (simp add: bare_expense_def)
qed

text \<open>
  Claim C7. The steps built for a fresh expense carry the sequence numbers
  \<open>1, 2, \<dots>, N\<close> in order, without gap or duplicate, where \<open>N\<close> is the number of
  configured stages that resolve to an assignee, plus one when the manager-first step
  applies; a stage without assignee uses up no number.
\<close>

theorem build_sequence_contiguous:
  assumes "steps e = []"
  shows "map sequence (steps (build_approval_steps_for_expense e))
           = [1 ..< Suc (length (steps (build_approval_steps_for_expense e)))]
       \<and> length (steps (build_approval_steps_for_expense e))
           = (if is_manager_first_approver (company e) \<and> manager (submitter e) \<noteq> None
              then 1 else 0)
             + length (filter (\<lambda>st. resolve_stage_assignee (company e) st (submitter e) \<noteq> None)
                         (approver_stages (company e)))"
proof -
  let ?n = "(if is_manager_first_approver (company e) \<and> manager (submitter e) \<noteq> None
              then 1 else 0)
             + length (filter (\<lambda>st. resolve_stage_assignee (company e) st (submitter e) \<noteq> None)
                         (approver_stages (company e)))"
  have s: "map sequence (steps (build_approval_steps_for_expense e)) = [1 ..< Suc ?n]"
    using build_sequence [OF assms] .
  have "length (map sequence (steps (build_approval_steps_for_expense e))) = length [1 ..< Suc ?n]"
    using s by (rule arg_cong)
  then have l: "length (steps (build_approval_steps_for_expense e)) = ?n"
    by (simp del: upt_Suc)
  from s l show ?thesis by simp
qed

theorem build_sequence_contiguous_witness:
  "map sequence (steps (build_approval_steps_for_expense (example_expense None DRAFT []))) = [1, 2, 3]
   \<and> map approver (steps (build_approval_steps_for_expense (example_expense None DRAFT []))) = [10, 20, 30]
   \<and> length (approver_stages (company (example_expense None DRAFT []))) = 3"
proof -
  let ?b = "build_approval_steps_for_expense (example_expense None DRAFT [])"
  have s: "steps (example_expense None DRAFT []) = []"
    by (simp add: ex_defs)
  have a: "map approver (steps ?b) = [10, 20, 30]"
    by (simp add: ex_defs build_approval_steps_for_expense_def manager_first_def create_step_def
          resolve_stage_assignee_def MANAGER_def)
  have l: "length (steps ?b) = 3"
    using arg_cong [OF a, of length] by simp
  have m: "map sequence (steps ?b) = [1 ..< Suc (length (steps ?b))]"
    using build_sequence_contiguous [OF s] by (rule conjunct1)
  have u: "[1 ..< Suc 3] = [1, 2, 3]"
    by (simp add: upt_rec)
  have "map sequence (steps ?b) = [1, 2, 3]"
    using m unfolding l u .
  moreover have "length (approver_stages (company (example_expense None DRAFT []))) = 3"
    by (simp add: ex_defs)
  ultimately show ?thesis
    using a by simp
qed

section \<open>Properties of the policy evaluator\<close>

lemma skip_if_pending_approved [simp]:
  "step_status (skip_if_pending now s) = STEP_APPROVED \<longleftrightarrow> step_status s = STEP_APPROVED"
  by (simp add: skip_if_pending_def)

lemma skip_if_pending_approver [simp]: "approver (skip_if_pending now s) = approver s"
  by (simp add: skip_if_pending_def)

lemma skip_if_pending_not_pending [simp]: "step_status (skip_if_pending now s) \<noteq> STEP_PENDING"
  by (simp add: skip_if_pending_def)

lemma skip_if_pending_id: "step_status s \<noteq> STEP_PENDING \<Longrightarrow> skip_if_pending now s = s"
  by (simp add: skip_if_pending_def)

lemma map_skip_if_pending_id:
  "\<forall>s\<in>set ss. step_status s \<noteq> STEP_PENDING \<Longrightarrow> map (skip_if_pending now) ss = ss"
  by (induction ss) (simp_all add: skip_if_pending_id)

lemma approved_by_skip [simp]: "approved_by ua (map (skip_if_pending now) ss) = approved_by ua ss"
  by (induction ss) (simp_all add: approved_by_def)

lemma approved_count_skip:
  "length (filter (\<lambda>s. step_status s = STEP_APPROVED) (map (skip_if_pending now) ss))
     = length (filter (\<lambda>s. step_status s = STEP_APPROVED) ss)"
  by (induction ss) simp_all

lemma approved_percentage_skip [simp]:
  "approved_percentage (map (skip_if_pending now) ss) = approved_percentage ss"
  using approved_count_skip [of now ss] by (simp add: approved_percentage_def del: filter_map)

lemma specific_ok_skip [simp]: "specific_ok p (map (skip_if_pending now) ss) = specific_ok p ss"
  by (simp add: specific_ok_def)

lemma percentage_ok_skip [simp]: "percentage_ok p (map (skip_if_pending now) ss) = percentage_ok p ss"
  by (simp add: percentage_ok_def)

lemma finalize_approved_closed:
  "status e = APPROVED \<Longrightarrow> \<forall>s\<in>set (steps e). step_status s \<noteq> STEP_PENDING
     \<Longrightarrow> finalize_approved now e = e"
  by (simp add: finalize_approved_def map_skip_if_pending_id)

lemma finalize_approved_twice:
  "finalize_approved t2 (finalize_approved t1 e) = finalize_approved t1 e"
  by (rule finalize_approved_closed) (simp_all add: finalize_approved_def)

lemma evaluate_cases:
  "evaluate_policy_and_maybe_finalize now e = e
   \<or> evaluate_policy_and_maybe_finalize now e = finalize_approved now e"
  by (simp add: evaluate_policy_and_maybe_finalize_def Let_def split: option.splits)

lemma evaluate_not_finalizing:
  assumes "evaluate_policy_and_maybe_finalize t1 e \<noteq> finalize_approved t1 e"
  shows "evaluate_policy_and_maybe_finalize t2 e = e"
proof (cases "approval_policy (company e)")
  case None
  then show ?thesis by (simp add: evaluate_policy_and_maybe_finalize_def)
next
  case (Some p)
  with assms show ?thesis
    by (auto simp: evaluate_policy_and_maybe_finalize_def Let_def split: if_splits)
qed

lemma evaluate_finalize:
  "evaluate_policy_and_maybe_finalize t2 (finalize_approved t1 e) = finalize_approved t1 e"
  using evaluate_cases [of t2 "finalize_approved t1 e"] by (auto simp: finalize_approved_twice)

lemma evaluate_after_finalizing:
  assumes "evaluate_policy_and_maybe_finalize t1 e = finalize_approved t1 e"
  shows "evaluate_policy_and_maybe_finalize t2 (evaluate_policy_and_maybe_finalize t1 e)
           = evaluate_policy_and_maybe_finalize t1 e"
  using assms by (simp add: evaluate_finalize)

lemma percentage_floor:
  assumes "0 < n"
  shows "real p \<le> real (a * 100) / real n \<longleftrightarrow> p \<le> (a * 100) div n"
proof -
  have "real p \<le> real (a * 100) / real n \<longleftrightarrow> real p * real n \<le> real (a * 100)"
    using assms by (simp add: pos_le_divide_eq)
  also have "\<dots> \<longleftrightarrow> p * n \<le> a * 100"
    by (metis of_nat_le_iff of_nat_mult)
  also have "\<dots> \<longleftrightarrow> p \<le> (a * 100) div n"
    using assms by (simp add: less_eq_div_iff_mult_less_eq)
  finally show ?thesis .
qed

section \<open>Properties of the workflow operations\<close>

lemma evaluate_length [simp]:
  "length (steps (evaluate_policy_and_maybe_finalize now e)) = length (steps e)"
  using evaluate_cases [of now e] by (auto simp: finalize_approved_def)

lemma evaluate_keeps_resolved:
  assumes "i < length (steps e)" and "step_status (steps e ! i) \<noteq> STEP_PENDING"
  shows "steps (evaluate_policy_and_maybe_finalize now e) ! i = steps e ! i"
  using evaluate_cases [of now e] assms
  by (auto simp: finalize_approved_def skip_if_pending_id)

lemma evaluate_fields [simp]:
  "company (evaluate_policy_and_maybe_finalize now e) = company e"
  "submitter (evaluate_policy_and_maybe_finalize now e) = submitter e"
  using evaluate_cases [of now e] by (auto simp: finalize_approved_def)

lemma evaluate_status:
  "status (evaluate_policy_and_maybe_finalize now e) = APPROVED
     \<Longrightarrow> status e = APPROVED \<or> evaluate_policy_and_maybe_finalize now e = finalize_approved now e"
  using evaluate_cases [of now e] by auto

lemma evaluate_not_approved:
  "status (evaluate_policy_and_maybe_finalize now e) \<noteq> APPROVED
     \<Longrightarrow> evaluate_policy_and_maybe_finalize now e = e"
  using evaluate_cases [of now e] by (auto simp: finalize_approved_def)

lemma close_if_pending_not_pending [simp]:
  "step_status (close_if_pending st c now s) \<noteq> STEP_PENDING"
  by (simp add: close_if_pending_def)

lemma close_if_pending_id:
  "step_status s \<noteq> STEP_PENDING \<Longrightarrow> close_if_pending st c now s = s"
  by (simp add: close_if_pending_def)

lemma map_close_if_pending_id:
  "\<forall>s\<in>set ss. step_status s \<noteq> STEP_PENDING \<Longrightarrow> map (close_if_pending st c now) ss = ss"
  by (induction ss) (simp_all add: close_if_pending_id)

lemma first_pending_step_exists:
  assumes "\<exists>s\<in>set ss. approver s = u \<and> step_status s = STEP_PENDING"
  shows "\<exists>i. first_pending_step u ss = Some i"
  using assms first_pending_step_None [of u ss] by (cases "first_pending_step u ss") auto

text \<open>The outcome of \<open>approve_step\<close> once the acting user's step is found.\<close>

lemma approve_step_found:
  assumes "status e = PENDING" and "first_pending_step u (steps e) = Some i"
  shows "fst (approve_step e u c t1 t2)
       \<and> steps (snd (approve_step e u c t1 t2))
           = steps (evaluate_policy_and_maybe_finalize t2
               (e\<lparr>steps := (steps e)
                    [i := (steps e ! i)\<lparr>step_status := STEP_APPROVED, comment := c,
                                         acted_at := Some t1\<rparr>]\<rparr>))"
  using assms by (simp add: approve_step_def Let_def)

lemma approve_step_not_found:
  "first_pending_step u (steps e) = None \<Longrightarrow> approve_step e u c t1 t2 = (False, e)"
  by (simp add: approve_step_def)

lemma approve_step_not_pending:
  "status e \<noteq> PENDING \<Longrightarrow> approve_step e u c t1 t2 = (False, e)"
  by (simp add: approve_step_def)

subsection \<open>Preservation of the invariant\<close>

lemma build_terminal_closed: "terminal_closed (build_approval_steps_for_expense e)"
  by (simp add: terminal_closed_def build_approval_steps_for_expense_def Let_def)

lemma finalize_terminal_closed: "terminal_closed (finalize_approved now e)"
  by (simp add: terminal_closed_def finalize_approved_def)

lemma evaluate_terminal_closed:
  "terminal_closed e \<Longrightarrow> terminal_closed (evaluate_policy_and_maybe_finalize now e)"
  using evaluate_cases [of now e] by (auto simp: finalize_terminal_closed)

lemma approve_step_terminal_closed:
  assumes "terminal_closed e"
  shows "terminal_closed (snd (approve_step e u c t1 t2))"
proof (cases "status e = PENDING")
  case False
  then show ?thesis using assms by (simp add: approve_step_not_pending)
next
  case pending: True
  show ?thesis
  proof (cases "first_pending_step u (steps e)")
    case None
    then show ?thesis using assms by (simp add: approve_step_not_found)
  next
    case (Some i)
    let ?e1 = "e\<lparr>steps := (steps e)
                    [i := (steps e ! i)\<lparr>step_status := STEP_APPROVED, comment := c,
                                         acted_at := Some t1\<rparr>]\<rparr>"
    let ?e2 = "evaluate_policy_and_maybe_finalize t2 ?e1"
    have e1: "terminal_closed ?e1"
      using pending by (simp add: terminal_closed_def)
    then have e2: "terminal_closed ?e2"
      by (rule evaluate_terminal_closed)
    show ?thesis
    proof (cases "status ?e2 = APPROVED")
      case True
      then show ?thesis
        using pending Some e2 by (simp add: approve_step_def Let_def)
    next
      case False
      then have "?e2 = ?e1" by (rule evaluate_not_approved)
      then have "status ?e2 = PENDING" using pending by simp
      then show ?thesis
        using pending Some False
        by (auto simp: approve_step_def Let_def terminal_closed_def list_ex_iff)
    qed
  qed
qed

lemma reject_expense_terminal_closed:
  assumes "terminal_closed e"
  shows "terminal_closed (snd (reject_expense e u c t1 t2))"
proof (cases "first_pending_step u (steps e)")
  case None
  then show ?thesis using assms by (simp add: reject_expense_def)
next
  case (Some i)
  then show ?thesis by (simp add: reject_expense_def Let_def terminal_closed_def)
qed

lemma admin_override_terminal_closed:
  assumes "terminal_closed e"
  shows "terminal_closed (snd (admin_override_expense e target c now))"
  using assms by (simp add: admin_override_expense_def terminal_closed_def)

section \<open>Claims about the policy evaluator\<close>

text \<open>
  Claim C3. For an expense with at least one step and a policy, the percentage condition
  \<open>percentage_ok\<close> holds exactly when \<open>percentage_required\<close> is positive and at most
  the truncated integer percentage \<open>(approved_count * 100) div total_count\<close>. In
  PERCENTAGE mode the evaluator finalizes exactly under that condition (for an expense
  not yet APPROVED, the status becomes APPROVED if and only if it holds), and in
  PERCENTAGE_OR_SPECIFIC mode the same condition is the percentage disjunct.
\<close>

theorem percentage_condition_is_floor:
  assumes "approval_policy (company e) = Some policy" and "steps e \<noteq> []"
  shows "(percentage_ok policy (steps e) \<longleftrightarrow>
            0 < percentage_required policy \<and>
            percentage_required policy
              \<le> (length (filter (\<lambda>s. step_status s = STEP_APPROVED) (steps e)) * 100)
                   div length (steps e))
       \<and> (mode policy = PERCENTAGE \<longrightarrow>
            evaluate_policy_and_maybe_finalize now e
              = (if 0 < percentage_required policy \<and>
                    percentage_required policy
                      \<le> (length (filter (\<lambda>s. step_status s = STEP_APPROVED) (steps e)) * 100)
                           div length (steps e)
                 then finalize_approved now e else e))
       \<and> (mode policy = PERCENTAGE_OR_SPECIFIC \<longrightarrow>
            evaluate_policy_and_maybe_finalize now e
              = (if specific_ok policy (steps e) \<or>
                    (0 < percentage_required policy \<and>
                     percentage_required policy
                       \<le> (length (filter (\<lambda>s. step_status s = STEP_APPROVED) (steps e)) * 100)
                            div length (steps e))
                 then finalize_approved now e else e))
       \<and> (mode policy = PERCENTAGE \<and> status e \<noteq> APPROVED \<longrightarrow>
            (status (evaluate_policy_and_maybe_finalize now e) = APPROVED \<longleftrightarrow>
               0 < percentage_required policy \<and>
               percentage_required policy
                 \<le> (length (filter (\<lambda>s. step_status s = STEP_APPROVED) (steps e)) * 100)
                      div length (steps e)))"
proof -
  let ?a = "length (filter (\<lambda>s. step_status s = STEP_APPROVED) (steps e))"
  let ?n = "length (steps e)"
  let ?p = "percentage_required policy"
  have n: "0 < ?n" using assms(2) by simp
  have q: "real ?p \<le> approved_percentage (steps e) \<longleftrightarrow> ?p \<le> (?a * 100) div ?n"
    using percentage_floor [OF n, of ?p ?a] by (simp add: approved_percentage_def)
  have ok: "percentage_ok policy (steps e) \<longleftrightarrow> 0 < ?p \<and> ?p \<le> (?a * 100) div ?n"
    using n q by (simp add: percentage_ok_def)
  have pct: "mode policy = PERCENTAGE \<Longrightarrow>
      evaluate_policy_and_maybe_finalize now e
        = (if 0 < ?p \<and> ?p \<le> (?a * 100) div ?n then finalize_approved now e else e)"
    using assms n q by (simp add: evaluate_policy_and_maybe_finalize_def Let_def)
  have either: "mode policy = PERCENTAGE_OR_SPECIFIC \<Longrightarrow>
      evaluate_policy_and_maybe_finalize now e
        = (if specific_ok policy (steps e) \<or> (0 < ?p \<and> ?p \<le> (?a * 100) div ?n)
           then finalize_approved now e else e)"
    using assms ok by (simp add: evaluate_policy_and_maybe_finalize_def Let_def)
  have obs: "mode policy = PERCENTAGE \<and> status e \<noteq> APPROVED \<Longrightarrow>
      (status (evaluate_policy_and_maybe_finalize now e) = APPROVED \<longleftrightarrow>
         0 < ?p \<and> ?p \<le> (?a * 100) div ?n)"
    using pct by (simp add: finalize_approved_def)
  from ok pct either obs show ?thesis by blast
qed

theorem percentage_condition_is_floor_witness:
  "evaluate_policy_and_maybe_finalize 7
     (example_expense (Some \<lparr>percentage_required = 34, specific_approver = None, mode = PERCENTAGE\<rparr>)
        PENDING
        [example_step 1 10 STEP_APPROVED, example_step 2 20 STEP_PENDING,
         example_step 3 30 STEP_PENDING])
   = example_expense (Some \<lparr>percentage_required = 34, specific_approver = None, mode = PERCENTAGE\<rparr>)
        PENDING
        [example_step 1 10 STEP_APPROVED, example_step 2 20 STEP_PENDING,
         example_step 3 30 STEP_PENDING]
   \<and> status (evaluate_policy_and_maybe_finalize 7
       (example_expense (Some \<lparr>percentage_required = 33, specific_approver = None, mode = PERCENTAGE_OR_SPECIFIC\<rparr>)
          PENDING
          [example_step 1 10 STEP_APPROVED, example_step 2 20 STEP_PENDING,
           example_step 3 30 STEP_PENDING])) = APPROVED"
proof -
  let ?ss = "[example_step 1 10 STEP_APPROVED, example_step 2 20 STEP_PENDING,
              example_step 3 30 STEP_PENDING]"
  let ?p = "\<lparr>percentage_required = 34, specific_approver = None, mode = PERCENTAGE\<rparr>"
  let ?q = "\<lparr>percentage_required = 33, specific_approver = None, mode = PERCENTAGE_OR_SPECIFIC\<rparr>"
  have p: "approval_policy (company (example_expense (Some ?p) PENDING ?ss)) = Some ?p
           \<and> steps (example_expense (Some ?p) PENDING ?ss) \<noteq> []"
    by (simp add: ex_defs)
  have q: "approval_policy (company (example_expense (Some ?q) PENDING ?ss)) = Some ?q
           \<and> steps (example_expense (Some ?q) PENDING ?ss) \<noteq> []"
    by (simp add: ex_defs)
  show ?thesis
    using percentage_condition_is_floor [of "example_expense (Some ?p) PENDING ?ss" ?p 7]
      percentage_condition_is_floor [of "example_expense (Some ?q) PENDING ?ss" ?q 7] p q
    by (simp add: ex_defs finalize_approved_def)
qed

text \<open>
  Claim C5. The policy evaluator is idempotent: a second call, at any later time, after a
  first one changes nothing further. It changes nothing at all when no policy is
  configured or the expense has no steps, nor on an expense that is already APPROVED
  with no PENDING step left.
\<close>

theorem evaluate_idempotent:
  "evaluate_policy_and_maybe_finalize t2 (evaluate_policy_and_maybe_finalize t1 e)
     = evaluate_policy_and_maybe_finalize t1 e
   \<and> ((approval_policy (company e) = None \<or> steps e = [])
        \<longrightarrow> evaluate_policy_and_maybe_finalize t1 e = e)
   \<and> ((status e = APPROVED \<and> (\<forall>s\<in>set (steps e). step_status s \<noteq> STEP_PENDING))
        \<longrightarrow> evaluate_policy_and_maybe_finalize t1 e = e)"
proof (intro conjI impI)
  show "evaluate_policy_and_maybe_finalize t2 (evaluate_policy_and_maybe_finalize t1 e)
          = evaluate_policy_and_maybe_finalize t1 e"
  proof (cases "evaluate_policy_and_maybe_finalize t1 e = finalize_approved t1 e")
    case True
    then show ?thesis by (rule evaluate_after_finalizing)
  next
    case False
    then have unchanged: "evaluate_policy_and_maybe_finalize t1 e = e"
      using evaluate_cases [of t1 e] by simp
    have "evaluate_policy_and_maybe_finalize t2 e = e"
      using False by (rule evaluate_not_finalizing)
    with unchanged show ?thesis by simp
  qed
next
  assume "approval_policy (company e) = None \<or> steps e = []"
  then show "evaluate_policy_and_maybe_finalize t1 e = e"
    by (auto simp: evaluate_policy_and_maybe_finalize_def Let_def split: option.splits)
next
  assume "status e = APPROVED \<and> (\<forall>s\<in>set (steps e). step_status s \<noteq> STEP_PENDING)"
  then show "evaluate_policy_and_maybe_finalize t1 e = e"
    using evaluate_cases [of t1 e] by (auto simp: finalize_approved_closed)
qed

theorem evaluate_idempotent_witness:
  "evaluate_policy_and_maybe_finalize 8
     (evaluate_policy_and_maybe_finalize 7
        (example_expense (Some \<lparr>percentage_required = 50, specific_approver = None, mode = PERCENTAGE\<rparr>)
           PENDING
           [example_step 1 10 STEP_APPROVED, example_step 2 20 STEP_APPROVED,
            example_step 3 30 STEP_PENDING]))
   = example_expense (Some \<lparr>percentage_required = 50, specific_approver = None, mode = PERCENTAGE\<rparr>)
       APPROVED
       [example_step 1 10 STEP_APPROVED, example_step 2 20 STEP_APPROVED,
        \<lparr>sequence = 3, approver = 30, step_status = STEP_SKIPPED, comment = [], acted_at = Some 7\<rparr>]
   \<and> approval_policy (company (example_expense None PENDING [example_step 1 10 STEP_PENDING])) = None
   \<and> evaluate_policy_and_maybe_finalize 7 (example_expense None PENDING [example_step 1 10 STEP_PENDING])
       = example_expense None PENDING [example_step 1 10 STEP_PENDING]
   \<and> status (example_expense (Some \<lparr>percentage_required = 50, specific_approver = None, mode = PERCENTAGE\<rparr>)
           APPROVED [example_step 1 10 STEP_APPROVED, example_step 2 20 STEP_SKIPPED]) = APPROVED
   \<and> map step_status [example_step 1 10 STEP_APPROVED, example_step 2 20 STEP_SKIPPED]
       = [STEP_APPROVED, STEP_SKIPPED]
   \<and> evaluate_policy_and_maybe_finalize 7
        (example_expense (Some \<lparr>percentage_required = 50, specific_approver = None, mode = PERCENTAGE\<rparr>)
           APPROVED [example_step 1 10 STEP_APPROVED, example_step 2 20 STEP_SKIPPED])
       = example_expense (Some \<lparr>percentage_required = 50, specific_approver = None, mode = PERCENTAGE\<rparr>)
           APPROVED [example_step 1 10 STEP_APPROVED, example_step 2 20 STEP_SKIPPED]"
proof -
  let ?p = "Some \<lparr>percentage_required = 50, specific_approver = None, mode = PERCENTAGE\<rparr>"
  let ?e = "example_expense ?p PENDING
              [example_step 1 10 STEP_APPROVED, example_step 2 20 STEP_APPROVED,
               example_step 3 30 STEP_PENDING]"
  let ?n = "example_expense None PENDING [example_step 1 10 STEP_PENDING]"
  let ?f = "example_expense ?p APPROVED [example_step 1 10 STEP_APPROVED, example_step 2 20 STEP_SKIPPED]"
  have first: "evaluate_policy_and_maybe_finalize 7 ?e
      = example_expense ?p APPROVED
         [example_step 1 10 STEP_APPROVED, example_step 2 20 STEP_APPROVED,
          \<lparr>sequence = 3, approver = 30, step_status = STEP_SKIPPED, comment = [], acted_at = Some 7\<rparr>]"
    by (simp add: evaluate_policy_and_maybe_finalize_def approved_percentage_def
          finalize_approved_def skip_if_pending_def ex_defs)
  have n: "approval_policy (company ?n) = None"
    by (simp add: ex_defs)
  have f: "status ?f = APPROVED \<and> (\<forall>s\<in>set (steps ?f). step_status s \<noteq> STEP_PENDING)"
    by (simp add: ex_defs)
  show ?thesis
    using evaluate_idempotent [of 8 7 ?e] evaluate_idempotent [of 8 7 ?n]
      evaluate_idempotent [of 8 7 ?f] first n f
    by (simp add: ex_defs)
qed

text \<open>
  Claim C8. Under a policy of mode PERCENTAGE with \<open>percentage_required = 0\<close> the policy
  evaluator returns the expense as it is: neither the expense status nor any step
  changes.
\<close>

theorem percentage_zero_never_finalizes:
  assumes "approval_policy (company e) = Some policy"
    and "mode policy = PERCENTAGE" and "percentage_required policy = 0"
  shows "evaluate_policy_and_maybe_finalize now e = e"
  using assms by (simp add: evaluate_policy_and_maybe_finalize_def Let_def)

theorem percentage_zero_never_finalizes_witness:
  "evaluate_policy_and_maybe_finalize 7
     (example_expense (Some \<lparr>percentage_required = 0, specific_approver = Some 20, mode = PERCENTAGE\<rparr>)
        PENDING
        [example_step 1 10 STEP_APPROVED, example_step 2 20 STEP_APPROVED,
         example_step 3 30 STEP_PENDING])
   = example_expense (Some \<lparr>percentage_required = 0, specific_approver = Some 20, mode = PERCENTAGE\<rparr>)
        PENDING
        [example_step 1 10 STEP_APPROVED, example_step 2 20 STEP_APPROVED,
         example_step 3 30 STEP_PENDING]"
  by (rule percentage_zero_never_finalizes
        [of _ "\<lparr>percentage_required = 0, specific_approver = Some 20, mode = PERCENTAGE\<rparr>"])
     (simp_all add: example_expense_def example_company_def)

section \<open>Claims about the workflow operations\<close>

text \<open>
  Claim C1 says that no operation alters an expense that is APPROVED or REJECTED. The
  admin override does: on an APPROVED expense whose two steps are APPROVED it returns
  true with target REJECTED and the expense becomes REJECTED.
\<close>

theorem override_flips_terminal_status:
  "status (example_expense None APPROVED
             [example_step 1 10 STEP_APPROVED, example_step 2 20 STEP_APPROVED]) = APPROVED
   \<and> fst (admin_override_expense
            (example_expense None APPROVED
               [example_step 1 10 STEP_APPROVED, example_step 2 20 STEP_APPROVED])
            REJECTED ''Rejected by admin override.'' 9)
   \<and> status (snd (admin_override_expense
            (example_expense None APPROVED
               [example_step 1 10 STEP_APPROVED, example_step 2 20 STEP_APPROVED])
            REJECTED ''Rejected by admin override.'' 9)) = REJECTED"
  by (simp add: ex_defs admin_override_expense_def)

text \<open>
  Claim C1, amended. On an expense that is APPROVED or REJECTED and satisfies the
  invariant \<open>terminal_closed\<close> (no PENDING step is left), \<open>approve_step\<close> and
  \<open>reject_expense\<close> return false and change nothing, and \<open>admin_override_expense\<close>
  changes no step; with target APPROVED or REJECTED it nevertheless returns true and sets
  the expense status to the target, with any other target it returns false and changes
  nothing.
\<close>

theorem terminal_expense_only_override_changes_status:
  assumes "status e = APPROVED \<or> status e = REJECTED" and "terminal_closed e"
  shows "approve_step e u c t1 t2 = (False, e)
       \<and> reject_expense e u c t1 t2 = (False, e)
       \<and> admin_override_expense e target c now
           = (if target = APPROVED \<or> target = REJECTED then (True, e\<lparr>status := target\<rparr>)
              else (False, e))"
proof -
  have closed: "\<forall>s\<in>set (steps e). step_status s \<noteq> STEP_PENDING"
    using assms by (simp add: terminal_closed_def)
  have a: "approve_step e u c t1 t2 = (False, e)"
    using assms(1) by (auto intro: approve_step_not_pending)
  have "first_pending_step u (steps e) = None"
    using closed by (simp add: first_pending_step_None)
  then have r: "reject_expense e u c t1 t2 = (False, e)"
    by (simp add: reject_expense_def)
  have o: "admin_override_expense e target c now
           = (if target = APPROVED \<or> target = REJECTED then (True, e\<lparr>status := target\<rparr>)
              else (False, e))"
    by (simp add: admin_override_expense_def map_close_if_pending_id [OF closed])
  from a r o show ?thesis by simp
qed

theorem terminal_expense_only_override_changes_status_witness:
  "approve_step (example_expense None REJECTED
        [example_step 1 10 STEP_APPROVED, example_step 2 20 STEP_REJECTED]) 20 ''ok'' 5 6
     = (False, example_expense None REJECTED
        [example_step 1 10 STEP_APPROVED, example_step 2 20 STEP_REJECTED])
   \<and> reject_expense (example_expense None REJECTED
        [example_step 1 10 STEP_APPROVED, example_step 2 20 STEP_REJECTED]) 20 ''no'' 5 6
     = (False, example_expense None REJECTED
        [example_step 1 10 STEP_APPROVED, example_step 2 20 STEP_REJECTED])
   \<and> admin_override_expense (example_expense None REJECTED
        [example_step 1 10 STEP_APPROVED, example_step 2 20 STEP_REJECTED]) APPROVED ''ok'' 9
     = (True, example_expense None APPROVED
        [example_step 1 10 STEP_APPROVED, example_step 2 20 STEP_REJECTED])
   \<and> admin_override_expense (example_expense None REJECTED
        [example_step 1 10 STEP_APPROVED, example_step 2 20 STEP_REJECTED]) PENDING ''no'' 9
     = (False, example_expense None REJECTED
        [example_step 1 10 STEP_APPROVED, example_step 2 20 STEP_REJECTED])"
proof -
  let ?e = "example_expense None REJECTED
        [example_step 1 10 STEP_APPROVED, example_step 2 20 STEP_REJECTED]"
  have t: "status ?e = APPROVED \<or> status ?e = REJECTED"
    by (simp add: ex_defs)
  have c: "terminal_closed ?e"
    by (simp add: ex_defs terminal_closed_def)
  show ?thesis
    using terminal_expense_only_override_changes_status
        [OF t c, where u = 20 and c = "''ok''" and ?t1.0 = 5 and ?t2.0 = 6 and target = APPROVED
           and now = 9]
      terminal_expense_only_override_changes_status
        [OF t c, where u = 20 and c = "''no''" and ?t1.0 = 5 and ?t2.0 = 6 and target = PENDING
           and now = 9]
    by (simp add: example_expense_def)
qed

text \<open>
  Claim C2 says that the approver of the step at sequence 2 cannot approve while the step
  at sequence 1, of another approver, is not approved. On the chain built for the example
  company (approvers 10, 20, 30 at sequences 1, 2, 3, all PENDING) the approval by user 20
  returns true and marks the second step APPROVED while the first one stays PENDING.
\<close>

theorem approve_step_out_of_turn:
  "map approver (steps (build_approval_steps_for_expense (example_expense None DRAFT []))) = [10, 20, 30]
   \<and> map sequence (steps (build_approval_steps_for_expense (example_expense None DRAFT []))) = [1, 2, 3]
   \<and> map step_status (steps (build_approval_steps_for_expense (example_expense None DRAFT [])))
       = [STEP_PENDING, STEP_PENDING, STEP_PENDING]
   \<and> fst (approve_step (build_approval_steps_for_expense (example_expense None DRAFT [])) 20 ''ok'' 5 6)
   \<and> map step_status
        (steps (snd (approve_step (build_approval_steps_for_expense (example_expense None DRAFT []))
                       20 ''ok'' 5 6)))
       = [STEP_PENDING, STEP_APPROVED, STEP_PENDING]"
  by (simp add: ex_defs run_defs)

text \<open>
  Claim C2, amended. On a PENDING expense, \<open>approve_step\<close> for a user holding a PENDING
  step succeeds whatever the state of the steps of other approvers: it returns true and
  marks APPROVED, with the comment and the time, the step of least sequence among the
  PENDING steps of that user, and acts on no other step. Every other step is left as it
  is, unless the policy evaluator then finalizes the expense: in that case each step still
  PENDING is marked SKIPPED and the status becomes APPROVED. Without finalization (in
  particular without a policy) the status becomes APPROVED when no PENDING step remains
  and stays PENDING otherwise, so the user's own later PENDING steps wait.
\<close>

theorem approve_step_earliest_own_pending:
  assumes "status e = PENDING"
    and "\<exists>s\<in>set (steps e). approver s = u \<and> step_status s = STEP_PENDING"
  shows "\<exists>i. first_pending_step u (steps e) = Some i
           \<and> i < length (steps e) \<and> approver (steps e ! i) = u
           \<and> step_status (steps e ! i) = STEP_PENDING
           \<and> (\<forall>j<length (steps e).
                  approver (steps e ! j) = u \<and> step_status (steps e ! j) = STEP_PENDING
                    \<longrightarrow> sequence (steps e ! i) \<le> sequence (steps e ! j))
           \<and> fst (approve_step e u c t1 t2)
           \<and> length (steps (snd (approve_step e u c t1 t2))) = length (steps e)
           \<and> steps (snd (approve_step e u c t1 t2)) ! i
               = (steps e ! i)\<lparr>step_status := STEP_APPROVED, comment := c, acted_at := Some t1\<rparr>
           \<and> (let e1 = e\<lparr>steps := (steps e)
                           [i := (steps e ! i)\<lparr>step_status := STEP_APPROVED, comment := c,
                                                acted_at := Some t1\<rparr>]\<rparr>
               in approve_step e u c t1 t2
                   = (True,
                      if evaluate_policy_and_maybe_finalize t2 e1 = e1
                      then if list_ex (\<lambda>s. step_status s = STEP_PENDING) (steps e1)
                           then e1 else e1\<lparr>status := APPROVED\<rparr>
                      else e1\<lparr>status := APPROVED, steps := map (skip_if_pending t2) (steps e1)\<rparr>))
           \<and> (\<forall>j<length (steps e). j \<noteq> i \<longrightarrow>
                  steps (snd (approve_step e u c t1 t2)) ! j = steps e ! j
                  \<or> (step_status (steps e ! j) = STEP_PENDING
                      \<and> steps (snd (approve_step e u c t1 t2)) ! j
                          = (steps e ! j)\<lparr>step_status := STEP_SKIPPED, acted_at := Some t2\<rparr>
                      \<and> status (snd (approve_step e u c t1 t2)) = APPROVED))
           \<and> (approval_policy (company e) = None \<longrightarrow>
                  steps (snd (approve_step e u c t1 t2))
                    = (steps e)[i := (steps e ! i)\<lparr>step_status := STEP_APPROVED, comment := c,
                                                      acted_at := Some t1\<rparr>]
                  \<and> company (snd (approve_step e u c t1 t2)) = company e
                  \<and> submitter (snd (approve_step e u c t1 t2)) = submitter e
                  \<and> status (snd (approve_step e u c t1 t2))
                      = (if \<exists>j<length (steps e). j \<noteq> i \<and> step_status (steps e ! j) = STEP_PENDING
                         then PENDING else APPROVED))"
proof -
  obtain i where i: "first_pending_step u (steps e) = Some i"
    using first_pending_step_exists [OF assms(2)] by blast
  note found = first_pending_step_Some [OF i]
  let ?s = "(steps e ! i)\<lparr>step_status := STEP_APPROVED, comment := c, acted_at := Some t1\<rparr>"
  let ?e1 = "e\<lparr>steps := (steps e)[i := ?s]\<rparr>"
  let ?e2 = "evaluate_policy_and_maybe_finalize t2 ?e1"
  let ?r = "approve_step e u c t1 t2"
  let ?res = "if ?e2 = ?e1
              then if list_ex (\<lambda>s. step_status s = STEP_PENDING) (steps ?e1)
                   then ?e1 else ?e1\<lparr>status := APPROVED\<rparr>
              else ?e1\<lparr>status := APPROVED, steps := map (skip_if_pending t2) (steps ?e1)\<rparr>"
  have e1_status: "status ?e1 = PENDING"
    using assms(1) by simp
  have unfolded: "?r = (True, if status ?e2 = APPROVED then ?e2
                          else if \<not> list_ex (\<lambda>s. step_status s = STEP_PENDING) (steps ?e2)
                            then ?e2\<lparr>status := APPROVED\<rparr> else ?e2)"
    using assms(1) i by (simp add: approve_step_def Let_def)
  have whole: "?r = (True, ?res)"
  proof (cases "?e2 = ?e1")
    case True
    then show ?thesis
      using unfolded e1_status by simp
  next
    case False
    then have fin: "?e2 = finalize_approved t2 ?e1"
      using evaluate_cases [of t2 ?e1] by blast
    have "finalize_approved t2 ?e1
            = ?e1\<lparr>status := APPROVED, steps := map (skip_if_pending t2) (steps ?e1)\<rparr>"
      by (simp add: finalize_approved_def)
    moreover have "status (finalize_approved t2 ?e1) = APPROVED"
      by (simp add: finalize_approved_def)
    ultimately show ?thesis
      using unfolded fin False by simp
  qed
  have steps_r: "steps (snd ?r) = (if ?e2 = ?e1 then (steps e)[i := ?s]
                                   else map (skip_if_pending t2) ((steps e)[i := ?s]))"
    using whole by simp
  have status_r: "?e2 \<noteq> ?e1 \<Longrightarrow> status (snd ?r) = APPROVED"
    using whole by simp
  have len: "length (steps (snd ?r)) = length (steps e)"
    using steps_r by simp
  have at_i: "steps (snd ?r) ! i = ?s"
    using steps_r found by (simp add: skip_if_pending_id)
  have others: "\<forall>j<length (steps e). j \<noteq> i \<longrightarrow>
        steps (snd ?r) ! j = steps e ! j
        \<or> (step_status (steps e ! j) = STEP_PENDING
            \<and> steps (snd ?r) ! j = (steps e ! j)\<lparr>step_status := STEP_SKIPPED, acted_at := Some t2\<rparr>
            \<and> status (snd ?r) = APPROVED)"
  proof (intro allI impI)
    fix j assume j: "j < length (steps e)" "j \<noteq> i"
    show "steps (snd ?r) ! j = steps e ! j
        \<or> (step_status (steps e ! j) = STEP_PENDING
            \<and> steps (snd ?r) ! j = (steps e ! j)\<lparr>step_status := STEP_SKIPPED, acted_at := Some t2\<rparr>
            \<and> status (snd ?r) = APPROVED)"
    proof (cases "?e2 = ?e1")
      case True
      then show ?thesis using steps_r j by simp
    next
      case False
      then have "steps (snd ?r) ! j = skip_if_pending t2 (steps e ! j)"
        using steps_r j by simp
      then show ?thesis
        using status_r [OF False] by (simp add: skip_if_pending_def)
    qed
  qed
  have no_policy: "approval_policy (company e) = None \<longrightarrow>
        steps (snd ?r) = (steps e)[i := ?s]
        \<and> company (snd ?r) = company e \<and> submitter (snd ?r) = submitter e
        \<and> status (snd ?r)
            = (if \<exists>j<length (steps e). j \<noteq> i \<and> step_status (steps e ! j) = STEP_PENDING
               then PENDING else APPROVED)"
  proof
    assume "approval_policy (company e) = None"
    then have same: "?e2 = ?e1"
      by (simp add: evaluate_policy_and_maybe_finalize_def)
    have "list_ex (\<lambda>s. step_status s = STEP_PENDING) ((steps e)[i := ?s])
            \<longleftrightarrow> (\<exists>j<length (steps e). j \<noteq> i \<and> step_status (steps e ! j) = STEP_PENDING)"
    proof -
      have "list_ex (\<lambda>s. step_status s = STEP_PENDING) ((steps e)[i := ?s])
              \<longleftrightarrow> (\<exists>j<length (steps e). step_status ((steps e)[i := ?s] ! j) = STEP_PENDING)"
        unfolding list_ex_iff
        by (metis in_set_conv_nth length_list_update)
      also have "\<dots> \<longleftrightarrow> (\<exists>j<length (steps e). j \<noteq> i \<and> step_status (steps e ! j) = STEP_PENDING)"
      proof -
        have "\<And>j. j < length (steps e) \<Longrightarrow>
                step_status ((steps e)[i := ?s] ! j) = STEP_PENDING
                  \<longleftrightarrow> j \<noteq> i \<and> step_status (steps e ! j) = STEP_PENDING"
          using found by (simp add: nth_list_update)
        then show ?thesis by blast
      qed
      finally show ?thesis .
    qed
    then show "steps (snd ?r) = (steps e)[i := ?s]
        \<and> company (snd ?r) = company e \<and> submitter (snd ?r) = submitter e
        \<and> status (snd ?r)
            = (if \<exists>j<length (steps e). j \<noteq> i \<and> step_status (steps e ! j) = STEP_PENDING
               then PENDING else APPROVED)"
      using whole same assms(1) by simp
  qed
  have first_part: "fst ?r"
    using whole by simp
  show ?thesis
    using i found first_part len at_i whole others no_policy
    by (intro exI [of _ i]) (simp add: Let_def)
qed


theorem approve_step_earliest_own_pending_witness:
  "approve_step
     (example_expense (Some \<lparr>percentage_required = 0, specific_approver = Some 20, mode = SPECIFIC\<rparr>)
        PENDING
        [example_step 1 10 STEP_PENDING, example_step 2 20 STEP_PENDING, example_step 3 20 STEP_PENDING])
     20 ''ok'' 5 6
   = (True,
      example_expense (Some \<lparr>percentage_required = 0, specific_approver = Some 20, mode = SPECIFIC\<rparr>)
        APPROVED
        [\<lparr>sequence = 1, approver = 10, step_status = STEP_SKIPPED, comment = [], acted_at = Some 6\<rparr>,
         \<lparr>sequence = 2, approver = 20, step_status = STEP_APPROVED, comment = ''ok'', acted_at = Some 5\<rparr>,
         \<lparr>sequence = 3, approver = 20, step_status = STEP_SKIPPED, comment = [], acted_at = Some 6\<rparr>])
   \<and> approve_step
     (example_expense None PENDING
        [example_step 1 10 STEP_PENDING, example_step 2 20 STEP_PENDING, example_step 3 20 STEP_PENDING])
     20 ''ok'' 5 6
   = (True,
      example_expense None PENDING
        [example_step 1 10 STEP_PENDING,
         \<lparr>sequence = 2, approver = 20, step_status = STEP_APPROVED, comment = ''ok'', acted_at = Some 5\<rparr>,
         example_step 3 20 STEP_PENDING])"
proof -
  let ?ss = "[example_step 1 10 STEP_PENDING, example_step 2 20 STEP_PENDING, example_step 3 20 STEP_PENDING]"
  let ?upd = "\<lambda>e i. e\<lparr>steps := (steps e)
                 [i := (steps e ! i)\<lparr>step_status := STEP_APPROVED, comment := ''ok'',
                                      acted_at := Some 5\<rparr>]\<rparr>"
  let ?res = "\<lambda>e i.
      (True,
       if evaluate_policy_and_maybe_finalize 6 (?upd e i) = ?upd e i
       then if list_ex (\<lambda>s. step_status s = STEP_PENDING) (steps (?upd e i))
            then ?upd e i else (?upd e i)\<lparr>status := APPROVED\<rparr>
       else (?upd e i)\<lparr>status := APPROVED, steps := map (skip_if_pending 6) (steps (?upd e i))\<rparr>)"
  let ?a = "example_expense (Some \<lparr>percentage_required = 0, specific_approver = Some 20, mode = SPECIFIC\<rparr>)
              PENDING ?ss"
  let ?b = "example_expense None PENDING ?ss"
  have st: "status ?a = PENDING" "status ?b = PENDING"
    by (simp_all add: ex_defs)
  have holds: "\<exists>s\<in>set (steps ?a). approver s = 20 \<and> step_status s = STEP_PENDING"
      "\<exists>s\<in>set (steps ?b). approver s = 20 \<and> step_status s = STEP_PENDING"
    by (simp_all add: ex_defs)
  have first: "first_pending_step 20 (steps ?a) = Some 1" "first_pending_step 20 (steps ?b) = Some 1"
    by (simp_all add: ex_defs first_pending_step_def)
  obtain i where i: "first_pending_step 20 (steps ?a) = Some i"
      and ri: "approve_step ?a 20 ''ok'' 5 6 = ?res ?a i"
    using approve_step_earliest_own_pending [OF st(1) holds(1), of "''ok''" 5 6]
    unfolding Let_def by blast
  obtain j where j: "first_pending_step 20 (steps ?b) = Some j"
      and rj: "approve_step ?b 20 ''ok'' 5 6 = ?res ?b j"
    using approve_step_earliest_own_pending [OF st(2) holds(2), of "''ok''" 5 6]
    unfolding Let_def by blast
  have "i = 1" "j = 1"
    using i j first by simp_all
  then have "approve_step ?a 20 ''ok'' 5 6 = ?res ?a 1" "approve_step ?b 20 ''ok'' 5 6 = ?res ?b 1"
    using ri rj by simp_all
  then show ?thesis
    by (simp add: ex_defs evaluate_policy_and_maybe_finalize_def approved_by_def
          finalize_approved_def skip_if_pending_def)
qed


text \<open>
  Claim C4. When the acting user holds a PENDING step (whatever the expense status, so in
  particular on a PENDING expense), \<open>reject_expense\<close> returns true, marks REJECTED the
  step of least sequence among the PENDING steps of that user, sets the expense status to
  REJECTED and marks every other PENDING step REJECTED (none SKIPPED), appending the
  override fragment to its comment when a comment was given; steps already resolved are
  left as they are. The result does not depend on the company configuration, hence not
  on the policy.
\<close>

theorem reject_expense_closes_all:
  assumes "\<exists>s\<in>set (steps e). approver s = u \<and> step_status s = STEP_PENDING"
  shows "\<exists>i e'. first_pending_step u (steps e) = Some i
           \<and> i < length (steps e) \<and> approver (steps e ! i) = u
           \<and> step_status (steps e ! i) = STEP_PENDING
           \<and> (\<forall>j<length (steps e).
                  approver (steps e ! j) = u \<and> step_status (steps e ! j) = STEP_PENDING
                    \<longrightarrow> sequence (steps e ! i) \<le> sequence (steps e ! j))
           \<and> reject_expense e u c t1 t2 = (True, e')
           \<and> status e' = REJECTED \<and> company e' = company e \<and> submitter e' = submitter e
           \<and> length (steps e') = length (steps e)
           \<and> steps e' ! i
               = (steps e ! i)\<lparr>step_status := STEP_REJECTED, comment := c, acted_at := Some t1\<rparr>
           \<and> (\<forall>j<length (steps e). j \<noteq> i \<and> step_status (steps e ! j) = STEP_PENDING
                  \<longrightarrow> steps e' ! j
                        = (steps e ! j)\<lparr>step_status := STEP_REJECTED,
                             comment := comment (steps e ! j)
                               @ (if c \<noteq> [] then CHR 10 # ''[Admin override] '' @ c else []),
                             acted_at := Some t2\<rparr>)
           \<and> (\<forall>j<length (steps e). step_status (steps e ! j) \<noteq> STEP_PENDING
                  \<longrightarrow> steps e' ! j = steps e ! j)
           \<and> reject_expense (e\<lparr>company := k\<rparr>) u c t1 t2 = (True, e'\<lparr>company := k\<rparr>)"
proof -
  obtain i where i: "first_pending_step u (steps e) = Some i"
    using first_pending_step_exists [OF assms] by blast
  note found = first_pending_step_Some [OF i]
  let ?s = "(steps e ! i)\<lparr>step_status := STEP_REJECTED, comment := c, acted_at := Some t1\<rparr>"
  let ?e' = "e\<lparr>steps := map (close_if_pending REJECTED c t2) ((steps e)[i := ?s]),
               status := REJECTED\<rparr>"
  have res: "reject_expense e u c t1 t2 = (True, ?e')"
    using i by (simp add: reject_expense_def Let_def)
  have res_k: "reject_expense (e\<lparr>company := k\<rparr>) u c t1 t2 = (True, ?e'\<lparr>company := k\<rparr>)"
    using i by (simp add: reject_expense_def Let_def)
  have at_i: "steps ?e' ! i = ?s"
    using found by (simp add: close_if_pending_id)
  have others: "\<forall>j<length (steps e). j \<noteq> i \<and> step_status (steps e ! j) = STEP_PENDING
        \<longrightarrow> steps ?e' ! j
              = (steps e ! j)\<lparr>step_status := STEP_REJECTED,
                   comment := comment (steps e ! j)
                     @ (if c \<noteq> [] then CHR 10 # ''[Admin override] '' @ c else []),
                   acted_at := Some t2\<rparr>"
    by (simp add: close_if_pending_def)
  have resolved: "\<forall>j<length (steps e). step_status (steps e ! j) \<noteq> STEP_PENDING
        \<longrightarrow> steps ?e' ! j = steps e ! j"
    using found by (auto simp: close_if_pending_id nth_list_update)
  have rest: "status ?e' = REJECTED \<and> company ?e' = company e \<and> submitter ?e' = submitter e
      \<and> length (steps ?e') = length (steps e)"
    by simp
  show ?thesis
    using i found res res_k at_i others resolved rest by blast
qed

theorem reject_expense_closes_all_witness:
  "reject_expense
     (example_expense (Some \<lparr>percentage_required = 30, specific_approver = None, mode = PERCENTAGE\<rparr>)
        PENDING
        [example_step 1 10 STEP_APPROVED, example_step 2 20 STEP_PENDING,
         example_step 3 30 STEP_PENDING, example_step 4 20 STEP_PENDING])
     20 ''no'' 5 6
   = (True,
      example_expense (Some \<lparr>percentage_required = 30, specific_approver = None, mode = PERCENTAGE\<rparr>)
        REJECTED
        [example_step 1 10 STEP_APPROVED,
         \<lparr>sequence = 2, approver = 20, step_status = STEP_REJECTED, comment = ''no'', acted_at = Some 5\<rparr>,
         \<lparr>sequence = 3, approver = 30, step_status = STEP_REJECTED,
            comment = CHR 10 # ''[Admin override] no'', acted_at = Some 6\<rparr>,
         \<lparr>sequence = 4, approver = 20, step_status = STEP_REJECTED,
            comment = CHR 10 # ''[Admin override] no'', acted_at = Some 6\<rparr>])"
proof -
  let ?p = "Some \<lparr>percentage_required = 30, specific_approver = None, mode = PERCENTAGE\<rparr>"
  let ?e = "example_expense ?p PENDING
        [example_step 1 10 STEP_APPROVED, example_step 2 20 STEP_PENDING,
         example_step 3 30 STEP_PENDING, example_step 4 20 STEP_PENDING]"
  have holds: "\<exists>s\<in>set (steps ?e). approver s = 20 \<and> step_status s = STEP_PENDING"
    by (simp add: ex_defs)
  have first: "first_pending_step 20 (steps ?e) = Some 1"
    by (simp add: ex_defs first_pending_step_def)
  have len: "length (steps ?e) = 4"
    by (simp add: ex_defs)
  obtain i e' where r: "first_pending_step 20 (steps ?e) = Some i"
      "reject_expense ?e 20 ''no'' 5 6 = (True, e')"
      "status e' = REJECTED" "company e' = company ?e" "submitter e' = submitter ?e"
      "length (steps e') = length (steps ?e)"
      "steps e' ! i = (steps ?e ! i)\<lparr>step_status := STEP_REJECTED, comment := ''no'', acted_at := Some 5\<rparr>"
      "\<forall>j<length (steps ?e). j \<noteq> i \<and> step_status (steps ?e ! j) = STEP_PENDING
          \<longrightarrow> steps e' ! j
                = (steps ?e ! j)\<lparr>step_status := STEP_REJECTED,
                     comment := comment (steps ?e ! j)
                       @ (if ''no'' \<noteq> [] then CHR 10 # ''[Admin override] '' @ ''no'' else []),
                     acted_at := Some 6\<rparr>"
      "\<forall>j<length (steps ?e). step_status (steps ?e ! j) \<noteq> STEP_PENDING
          \<longrightarrow> steps e' ! j = steps ?e ! j"
    using reject_expense_closes_all [OF holds, of "''no''" 5 6] by blast
  from r(1) first have i: "i = 1" by simp
  have s0: "steps e' ! 0 = example_step 1 10 STEP_APPROVED"
    using r(9) len by (simp add: ex_defs)
  have s1: "steps e' ! 1 = \<lparr>sequence = 2, approver = 20, step_status = STEP_REJECTED, comment = ''no'', acted_at = Some 5\<rparr>"
    using r(7) i by (simp add: ex_defs)
  have s2: "steps e' ! 2 = \<lparr>sequence = 3, approver = 30, step_status = STEP_REJECTED,
            comment = CHR 10 # ''[Admin override] no'', acted_at = Some 6\<rparr>"
    using r(8) i len by (simp add: ex_defs)
  have s3: "steps e' ! 3 = \<lparr>sequence = 4, approver = 20, step_status = STEP_REJECTED,
            comment = CHR 10 # ''[Admin override] no'', acted_at = Some 6\<rparr>"
    using r(8) i len by (simp add: ex_defs)
  have "length (steps e') = 4"
    using r(6) len by simp
  then have "steps e' = [steps e' ! 0, steps e' ! 1, steps e' ! 2, steps e' ! 3]"
    by (auto simp: list_eq_iff_nth_eq less_Suc_eq numeral_eq_Suc)
  then have "steps e' = [example_step 1 10 STEP_APPROVED,
         \<lparr>sequence = 2, approver = 20, step_status = STEP_REJECTED, comment = ''no'', acted_at = Some 5\<rparr>,
         \<lparr>sequence = 3, approver = 30, step_status = STEP_REJECTED,
            comment = CHR 10 # ''[Admin override] no'', acted_at = Some 6\<rparr>,
         \<lparr>sequence = 4, approver = 20, step_status = STEP_REJECTED,
            comment = CHR 10 # ''[Admin override] no'', acted_at = Some 6\<rparr>]"
    using s0 s1 s2 s3 by simp
  then have "e' = example_expense ?p REJECTED
        [example_step 1 10 STEP_APPROVED,
         \<lparr>sequence = 2, approver = 20, step_status = STEP_REJECTED, comment = ''no'', acted_at = Some 5\<rparr>,
         \<lparr>sequence = 3, approver = 30, step_status = STEP_REJECTED,
            comment = CHR 10 # ''[Admin override] no'', acted_at = Some 6\<rparr>,
         \<lparr>sequence = 4, approver = 20, step_status = STEP_REJECTED,
            comment = CHR 10 # ''[Admin override] no'', acted_at = Some 6\<rparr>]"
    using r(3) r(4) r(5) by (cases e') (simp add: example_expense_def)
  with r(2) show ?thesis by simp
qed

text \<open>
  Claim C9. \<open>approve_step\<close> returns false and the unchanged expense whenever the expense
  status is not PENDING or the acting user has no PENDING step; so a repeated approval by
  a user whose only step is resolved fails without a second mutation.
\<close>

theorem approve_step_fails_unchanged:
  assumes "status e \<noteq> PENDING
           \<or> (\<forall>s\<in>set (steps e). \<not> (approver s = u \<and> step_status s = STEP_PENDING))"
  shows "approve_step e u c t1 t2 = (False, e)"
  using assms
proof
  assume "status e \<noteq> PENDING"
  then show ?thesis by (rule approve_step_not_pending)
next
  assume "\<forall>s\<in>set (steps e). \<not> (approver s = u \<and> step_status s = STEP_PENDING)"
  then have "first_pending_step u (steps e) = None"
    by (simp add: first_pending_step_None)
  then show ?thesis by (rule approve_step_not_found)
qed

theorem approve_step_fails_unchanged_witness:
  "approve_step (example_expense None PENDING
        [example_step 1 10 STEP_PENDING, example_step 2 20 STEP_PENDING,
         example_step 3 30 STEP_PENDING]) 20 ''ok'' 5 6
     = (True, example_expense None PENDING
        [example_step 1 10 STEP_PENDING,
         \<lparr>sequence = 2, approver = 20, step_status = STEP_APPROVED, comment = ''ok'', acted_at = Some 5\<rparr>,
         example_step 3 30 STEP_PENDING])
   \<and> approve_step (example_expense None PENDING
        [example_step 1 10 STEP_PENDING,
         \<lparr>sequence = 2, approver = 20, step_status = STEP_APPROVED, comment = ''ok'', acted_at = Some 5\<rparr>,
         example_step 3 30 STEP_PENDING]) 20 ''again'' 7 8
     = (False, example_expense None PENDING
        [example_step 1 10 STEP_PENDING,
         \<lparr>sequence = 2, approver = 20, step_status = STEP_APPROVED, comment = ''ok'', acted_at = Some 5\<rparr>,
         example_step 3 30 STEP_PENDING])
   \<and> approve_step (example_expense None REJECTED
        [example_step 1 10 STEP_REJECTED, example_step 2 20 STEP_REJECTED]) 20 ''ok'' 5 6
     = (False, example_expense None REJECTED
        [example_step 1 10 STEP_REJECTED, example_step 2 20 STEP_REJECTED])"
proof -
  let ?e1 = "example_expense None PENDING
        [example_step 1 10 STEP_PENDING,
         \<lparr>sequence = 2, approver = 20, step_status = STEP_APPROVED, comment = ''ok'', acted_at = Some 5\<rparr>,
         example_step 3 30 STEP_PENDING]"
  let ?r = "example_expense None REJECTED
        [example_step 1 10 STEP_REJECTED, example_step 2 20 STEP_REJECTED]"
  have first: "approve_step (example_expense None PENDING
        [example_step 1 10 STEP_PENDING, example_step 2 20 STEP_PENDING,
         example_step 3 30 STEP_PENDING]) 20 ''ok'' 5 6 = (True, ?e1)"
    by (simp add: ex_defs run_defs)
  have none: "\<forall>s\<in>set (steps ?e1). \<not> (approver s = 20 \<and> step_status s = STEP_PENDING)"
    by (simp add: ex_defs)
  have rej: "status ?r \<noteq> PENDING"
    by (simp add: ex_defs)
  show ?thesis
    using first approve_step_fails_unchanged [OF disjI2, OF none, of "''again''" 7 8]
      approve_step_fails_unchanged [OF disjI1, OF rej, of 20 "''ok''" 5 6]
    by simp
qed

text \<open>
  Claim C10. On an expense in status DRAFT, \<open>admin_override_expense\<close> with target
  APPROVED or REJECTED returns true and sets the status to the target; without steps the
  expense is otherwise unchanged. The current status is never read: the result is the
  same whatever it is.
\<close>

theorem admin_override_from_draft:
  assumes "status e = DRAFT" and "target = APPROVED \<or> target = REJECTED"
  shows "fst (admin_override_expense e target c now)
       \<and> status (snd (admin_override_expense e target c now)) = target
       \<and> (steps e = [] \<longrightarrow> admin_override_expense e target c now = (True, e\<lparr>status := target\<rparr>))
       \<and> admin_override_expense (e\<lparr>status := s\<rparr>) target c now
           = admin_override_expense e target c now"
  using assms by (auto simp: admin_override_expense_def)

theorem admin_override_from_draft_witness:
  "status bare_expense = DRAFT
   \<and> admin_override_expense bare_expense APPROVED ''Approved by admin override.'' 9
       = (True, bare_expense\<lparr>status := APPROVED\<rparr>)
   \<and> admin_override_expense bare_expense REJECTED ''Rejected by admin override.'' 9
       = (True, bare_expense\<lparr>status := REJECTED\<rparr>)"
proof -
  have d: "status bare_expense = DRAFT" and n: "steps bare_expense = []"
    by (simp_all add: bare_expense_def)
  show ?thesis
    using d n
      admin_override_from_draft [OF d disjI1, OF refl, of "''Approved by admin override.''" 9]
      admin_override_from_draft [OF d disjI2, OF refl, of "''Rejected by admin override.''" 9]
    by simp
qed

end
